theory Spec2Isabelle
  imports Main "HOL-Library.Sublist"
begin

section \<open>Go library functions used by the program\<close>

subsection \<open>\<open>strings.Replace\<close>\<close>

text \<open>
  \<open>strings.Replace(s, old, new, n)\<close> returns a copy of \<open>s\<close> with the first \<open>n\<close>
  non-overlapping instances of \<open>old\<close> replaced by \<open>new\<close>, found from left to right; a
  negative \<open>n\<close> means no limit. Go strings are byte sequences and the search compares bytes,
  so a string is a \<open>char list\<close> here. \<open>replaceScan\<close> is the search for a non-empty
  \<open>old\<close>: at each position either \<open>old\<close> stands there, and \<open>new\<close> is emitted and
  \<open>old\<close> skipped, or one byte is copied.
\<close>

function replaceScan :: "string \<Rightarrow> string \<Rightarrow> int \<Rightarrow> string \<Rightarrow> string" where
  "replaceScan old new n [] = []"
| "replaceScan old new n (c # cs) =
     (if n = 0 \<or> old = [] then c # cs
      else if prefix old (c # cs)
        then new @ replaceScan old new (if n < 0 then n else n - 1) (drop (length old) (c # cs))
        else c # replaceScan old new n cs)"
  by pat_completeness auto
termination
  by (relation "measure (\<lambda>(old, new, n, s). length s)") (auto simp: neq_Nil_conv)

text \<open>
  For an empty \<open>old\<close> Go inserts \<open>new\<close> before the string and after each UTF-8 sequence, up
  to \<open>n\<close> times. \<open>insertAtRunes\<close> steps byte by byte, which is the same on ASCII text; the
  program never passes an empty \<open>old\<close>.
\<close>

fun insertAtRunes :: "string \<Rightarrow> int \<Rightarrow> string \<Rightarrow> string" where
  "insertAtRunes new n [] = (if n = 0 then [] else new)"
| "insertAtRunes new n (c # cs) =
     (if n = 0 then c # cs
      else new @ c # insertAtRunes new (if n < 0 then n else n - 1) cs)"

definition Replace :: "string \<Rightarrow> string \<Rightarrow> string \<Rightarrow> int \<Rightarrow> string" where
  "Replace s old new n =
     (if old = new \<or> n = 0 then s
      else if old = [] then insertAtRunes new n s
      else replaceScan old new n s)"

subsection \<open>\<open>fmt.Sprintf\<close> and \<open>fmt.Errorf\<close>\<close>

text \<open>
  The program formats strings and decimal integers only. An operand is a Go \<open>string\<close>
  (\<open>S\<close>; an \<open>error\<close> printed with \<open>%v\<close> is its message) or an \<open>int\<close> (\<open>I\<close>).
  \<open>Itoa\<close> is the decimal rendering that \<open>%d\<close> produces.
\<close>

datatype arg = S string | I int

definition digitChar :: "nat \<Rightarrow> char" where
  "digitChar d = ''0123456789'' ! d"

function natDec :: "nat \<Rightarrow> string" where
  "natDec n = (if n < 10 then [digitChar n] else natDec (n div 10) @ [digitChar (n mod 10)])"
  by pat_completeness auto
termination
  by (relation "measure id") auto

declare natDec.simps [simp del]

definition Itoa :: "int \<Rightarrow> string" where
  "Itoa i = (if i < 0 then CHR ''-'' # natDec (nat (- i)) else natDec (nat i))"

text \<open>
  The verbs \<open>%s\<close>, \<open>%d\<close>, \<open>%v\<close> and \<open>%%\<close>, without flags or widths. A verb that does
  not fit its operand, a missing operand and surplus operands print Go's markers
  \<open>%!verb(type=value)\<close>, \<open>%!verb(MISSING)\<close> and \<open>%!(EXTRA type=value, ...)\<close>.
\<close>

fun formatArg :: "char \<Rightarrow> arg \<Rightarrow> string" where
  "formatArg v (S s) =
     (if v = CHR ''s'' \<or> v = CHR ''v'' then s else ''%!'' @ [v] @ ''(string='' @ s @ '')'')"
| "formatArg v (I i) =
     (if v = CHR ''d'' \<or> v = CHR ''v'' then Itoa i else ''%!'' @ [v] @ ''(int='' @ Itoa i @ '')'')"

fun describeArg :: "arg \<Rightarrow> string" where
  "describeArg (S s) = ''string='' @ s"
| "describeArg (I i) = ''int='' @ Itoa i"

fun joinWith :: "string \<Rightarrow> string list \<Rightarrow> string" where
  "joinWith sep [] = []"
| "joinWith sep [x] = x"
| "joinWith sep (x # y # ys) = x @ sep @ joinWith sep (y # ys)"

definition extraArgs :: "arg list \<Rightarrow> string" where
  "extraArgs as =
     (if as = [] then [] else ''%!(EXTRA '' @ joinWith '', '' (map describeArg as) @ '')'')"

fun Sprintf :: "string \<Rightarrow> arg list \<Rightarrow> string" where
  "Sprintf [] as = extraArgs as"
| "Sprintf [c] as = (if c = CHR ''%'' then ''%!(NOVERB)'' @ extraArgs as else c # extraArgs as)"
| "Sprintf (c # v # f) as =
     (if c \<noteq> CHR ''%'' then c # Sprintf (v # f) as
      else if v = CHR ''%'' then CHR ''%'' # Sprintf f as
      else case as of
             [] \<Rightarrow> ''%!'' @ [v] @ ''(MISSING)'' @ Sprintf f []
           | a # as' \<Rightarrow> formatArg v a @ Sprintf f as')"

text \<open>
  A Go \<open>error\<close> is modelled by its message; \<open>fmt.Errorf\<close> is \<open>Sprintf\<close> of the message.
  A function returning \<open>error\<close> returns \<open>error option\<close>, with \<open>None\<close> for \<open>nil\<close>.
\<close>

type_synonym error = string

section \<open>Connection descriptors (\<open>pkg/config/config.go\<close>)\<close>

record DBConfig =
  Host :: string
  Port :: int
  User :: string
  Password :: string
  Database :: string
  SSLMode :: string

definition ConnectionString :: "DBConfig \<Rightarrow> string" where
  "ConnectionString c =
     (let sslMode = SSLMode c;
          sslMode = (if sslMode = [] then ''require'' else sslMode)
      in Sprintf ''host=%s port=%d user=%s password=%s dbname=%s sslmode=%s''
           [S (Host c), I (Port c), S (User c), S (Password c), S (Database c), S sslMode])"

definition PgDumpConnectionString :: "DBConfig \<Rightarrow> string" where
  "PgDumpConnectionString c =
     Sprintf ''postgresql://%s:%s@%s:%d/%s''
       [S (User c), S (Password c), S (Host c), I (Port c), S (Database c)]"

section \<open>The idempotency rewriter (\<open>pkg/schema/schema.go\<close>)\<close>

text \<open>
  The six \<open>strings.Replace\<close> calls of \<open>processSchemaFile\<close>, from the text read from the
  input to the text handed to the output, each assigning \<open>sqlContent\<close> again.
\<close>

definition processSchemaFile_sql :: "string \<Rightarrow> string" where
  "processSchemaFile_sql content =
     (let sqlContent = content;
          sqlContent = Replace sqlContent ''CREATE SCHEMA '' ''CREATE SCHEMA IF NOT EXISTS '' (- 1);
          sqlContent = Replace sqlContent ''CREATE FUNCTION '' ''CREATE OR REPLACE FUNCTION '' (- 1);
          sqlContent = Replace sqlContent ''CREATE TABLE '' ''CREATE TABLE IF NOT EXISTS '' (- 1);
          sqlContent = Replace sqlContent ''CREATE INDEX '' ''CREATE INDEX IF NOT EXISTS '' (- 1);
          sqlContent = Replace sqlContent ''CREATE SEQUENCE '' ''CREATE SEQUENCE IF NOT EXISTS '' (- 1);
          sqlContent = Replace sqlContent ''CREATE VIEW '' ''CREATE OR REPLACE VIEW '' (- 1)
      in sqlContent)"

text \<open>
  The six \<open>strings.Replace\<close> calls written inline in \<open>RestoreSchemaFromReader\<close>, from the
  buffered reader contents to the text given to \<open>psql\<close> on its standard input.
\<close>

definition RestoreSchemaFromReader_sql :: "string \<Rightarrow> string" where
  "RestoreSchemaFromReader_sql buf =
     (let content = buf;
          content = Replace content ''CREATE SCHEMA '' ''CREATE SCHEMA IF NOT EXISTS '' (- 1);
          content = Replace content ''CREATE FUNCTION '' ''CREATE OR REPLACE FUNCTION '' (- 1);
          content = Replace content ''CREATE TABLE '' ''CREATE TABLE IF NOT EXISTS '' (- 1);
          content = Replace content ''CREATE INDEX '' ''CREATE INDEX IF NOT EXISTS '' (- 1);
          content = Replace content ''CREATE SEQUENCE '' ''CREATE SEQUENCE IF NOT EXISTS '' (- 1);
          content = Replace content ''CREATE VIEW '' ''CREATE OR REPLACE VIEW '' (- 1)
      in content)"

section \<open>The world around the program\<close>

text \<open>
  The program works on files and runs \<open>pg_dump\<close> and \<open>psql\<close>. The \<open>world\<close> is the
  state it changes: the files that exist, and a trace with one event for every external
  command that was run (\<open>Exec\<close>, tagged with the step of the specification that runs
  it) and one for every call of \<open>processSchemaFile\<close> (\<open>Rewrite\<close>, with the file read).
\<close>

datatype node = File string | Dir

type_synonym fs = "string \<Rightarrow> node option"

datatype step = Dumper | Rewriter | Resetter | Restorer

text \<open>
  \<open>exec.Cmd\<close>: \<open>Args\<close> is the argument vector, which starts with the command name as
  \<open>exec.Command\<close> builds it; \<open>Env\<close> is the environment of the child process; \<open>Stdin\<close>
  is the content of the file given as standard input, when one is set.
\<close>

record Cmd =
  Path :: string
  Args :: "string list"
  Env :: "string list"
  Stdin :: "string option"

datatype event = Exec step Cmd | Rewrite string

record world =
  files :: fs
  trace :: "event list"

text \<open>
  What the operating system answers is not decided by the program: \<open>sys\<close> holds the
  answers. \<open>os_MkdirTemp\<close> and \<open>os_CreateTemp\<close> are the results of
  \<open>os.MkdirTemp("", "pg-migration-*")\<close> and \<open>os.CreateTemp("", "drop-objects-*.sql")\<close>
  (an error, or the fresh name), \<open>time_Now\<close> is \<open>time.Now()\<close> in the layout
  \<open>20060102-150405\<close>, \<open>fails\<close> says which file operation fails and with what error, and
  \<open>cmd_Run\<close> is an external command: it may change any file, and it either succeeds or
  returns the error of \<open>cmd.Run\<close> with what the command wrote on its standard error.
  Every theorem holds for all such answers. \<open>log.Printf\<close> is not modelled.
\<close>

datatype syscall =
  WriteString string | Open string | Create string | ReadAll string | Write string

record sys =
  os_Environ :: "string list"
  time_Now :: string
  os_MkdirTemp :: "error + string"
  os_CreateTemp :: "error + string"
  fails :: "syscall \<Rightarrow> error option"
  cmd_Run :: "Cmd \<Rightarrow> fs \<Rightarrow> fs \<times> (error \<times> string) option"

definition Command :: "string \<Rightarrow> string list \<Rightarrow> Cmd" where
  "Command name arg = \<lparr>Path = name, Args = name # arg, Env = [], Stdin = None\<rparr>"

definition Run :: "sys \<Rightarrow> step \<Rightarrow> Cmd \<Rightarrow> world \<Rightarrow> (error \<times> string) option \<times> world" where
  "Run sy st cmd w =
     (let (fs', r) = cmd_Run sy cmd (files w)
      in (r, w\<lparr>files := fs', trace := trace w @ [Exec st cmd]\<rparr>))"

text \<open>
  \<open>filepath.Join\<close> of a directory and a file name; the cleaning that \<open>Join\<close> also does
  changes nothing on the names joined here. \<open>under dir p\<close>: the path \<open>p\<close> is \<open>dir\<close> or
  lies below it, which is what \<open>os.RemoveAll dir\<close> removes.
\<close>

definition Join :: "string \<Rightarrow> string \<Rightarrow> string" where
  "Join dir name = dir @ ''/'' @ name"

definition under :: "string \<Rightarrow> string \<Rightarrow> bool" where
  "under dir p = (p = dir \<or> prefix (dir @ ''/'') p)"

definition os_Open :: "sys \<Rightarrow> string \<Rightarrow> world \<Rightarrow> error + string" where
  "os_Open sy name w =
     (case fails sy (Open name) of
        Some e \<Rightarrow> Inl e
      | None \<Rightarrow>
          (case files w name of
             None \<Rightarrow> Inl (''open '' @ name @ '': no such file or directory'')
           | Some n \<Rightarrow> Inr name))"

definition os_Create :: "sys \<Rightarrow> string \<Rightarrow> world \<Rightarrow> error + world" where
  "os_Create sy name w =
     (case fails sy (Create name) of
        Some e \<Rightarrow> Inl e
      | None \<Rightarrow> Inr (w\<lparr>files := (files w)(name \<mapsto> File [])\<rparr>))"

text \<open>
  The program ignores the results of \<open>os.Remove\<close> and \<open>os.RemoveAll\<close>; both are
  modelled as removing what they are asked to remove.
\<close>

definition os_Remove :: "string \<Rightarrow> world \<Rightarrow> world" where
  "os_Remove name w = w\<lparr>files := (files w)(name := None)\<rparr>"

definition os_RemoveAll :: "string \<Rightarrow> world \<Rightarrow> world" where
  "os_RemoveAll path w = w\<lparr>files := (\<lambda>p. if under path p then None else files w p)\<rparr>"

definition io_ReadAll :: "sys \<Rightarrow> string \<Rightarrow> world \<Rightarrow> error + string" where
  "io_ReadAll sy name w =
     (case fails sy (ReadAll name) of
        Some e \<Rightarrow> Inl e
      | None \<Rightarrow>
          (case files w name of
             Some (File content) \<Rightarrow> Inr content
           | Some Dir \<Rightarrow> Inl (''read '' @ name @ '': is a directory'')
           | None \<Rightarrow> Inl (''read '' @ name @ '': file already closed'')))"

definition contentOf :: "world \<Rightarrow> string \<Rightarrow> string" where
  "contentOf w name = (case files w name of Some (File content) \<Rightarrow> content | _ \<Rightarrow> [])"

definition Write_file :: "sys \<Rightarrow> syscall \<Rightarrow> string \<Rightarrow> string \<Rightarrow> world \<Rightarrow> error + world" where
  "Write_file sy call name data w =
     (case fails sy call of
        Some e \<Rightarrow> Inl e
      | None \<Rightarrow> Inr (w\<lparr>files := (files w)(name \<mapsto> File (contentOf w name @ data))\<rparr>))"

section \<open>Schema dump and restore (\<open>pkg/schema/schema.go\<close>)\<close>

record SchemaHandler =
  source :: DBConfig
  target :: DBConfig

subsection \<open>\<open>processSchemaFile\<close>\<close>

text \<open>
  The reader and the writer are the files they were opened on. A deferred call of the
  source is applied to the world that the rest of the function body leaves, on every
  path through that body.
\<close>

definition processSchemaFile :: "sys \<Rightarrow> string \<Rightarrow> string \<Rightarrow> world \<Rightarrow> error option \<times> world" where
  "processSchemaFile sy input output w =
     (let w = w\<lparr>trace := trace w @ [Rewrite input]\<rparr>
      in case io_ReadAll sy input w of
           Inl err \<Rightarrow> (Some (Sprintf ''failed to read input file: %v'' [S err]), w)
         | Inr content \<Rightarrow>
             (let sqlContent = processSchemaFile_sql content
              in case Write_file sy (Write output) output sqlContent w of
                   Inl err \<Rightarrow> (Some (Sprintf ''failed to write to output file: %v'' [S err]), w)
                 | Inr w \<Rightarrow> (None, w)))"

subsection \<open>\<open>dumpSchema\<close>\<close>

definition dumpSchema_cmd :: "sys \<Rightarrow> SchemaHandler \<Rightarrow> string \<Rightarrow> Cmd" where
  "dumpSchema_cmd sy s dumpFilePath =
     (let args = [''-h'', Host (source s),
                  ''-p'', Sprintf ''%d'' [I (Port (source s))],
                  ''-U'', User (source s),
                  ''-d'', Database (source s),
                  ''--schema-only'',
                  ''--no-owner'',
                  ''--no-privileges'',
                  ''-f'', dumpFilePath];
          cmd = Command ''pg_dump'' args;
          cmd = cmd\<lparr>Env := os_Environ sy @ [Sprintf ''PGPASSWORD=%s'' [S (Password (source s))]]\<rparr>;
          cmd = (if SSLMode (source s) \<noteq> []
                 then cmd\<lparr>Env := Env cmd @ [Sprintf ''PGSSLMODE=%s'' [S (SSLMode (source s))]]\<rparr>
                 else cmd)
      in cmd)"

definition dumpSchema :: "sys \<Rightarrow> SchemaHandler \<Rightarrow> string \<Rightarrow> world \<Rightarrow> error option \<times> world" where
  "dumpSchema sy s dumpFilePath w =
     (case Run sy Dumper (dumpSchema_cmd sy s dumpFilePath) w of
        (Some (err, stderr), w) \<Rightarrow>
          (Some (Sprintf ''pg_dump failed: %v, stderr: %s'' [S err, S stderr]), w)
      | (None, w) \<Rightarrow> (None, w))"

definition DumpSchemaToFile :: "sys \<Rightarrow> SchemaHandler \<Rightarrow> string \<Rightarrow> world \<Rightarrow> error option \<times> world" where
  "DumpSchemaToFile sy s filePath w = dumpSchema sy s filePath w"

subsection \<open>\<open>dropExistingObjects\<close>\<close>

text \<open>The reset script, line by line as the source has it; every line ends in a newline.\<close>

definition dropScript_lines :: "string list" where
  "dropScript_lines =
     [
      [],
      ''DO $$ '',
      ''DECLARE'',
      ''    schema_rec RECORD;'',
      ''BEGIN'',
      ''    -- Drop all schemas except public and pg_* schemas'',
      ''    FOR schema_rec IN ('',
      ''        SELECT schema_name '',
      ''        FROM information_schema.schemata '',
      ''        WHERE schema_name NOT LIKE 'pg_%' '',
      ''        AND schema_name != 'public'' @ [CHR 0x27],
      ''        AND schema_name != 'information_schema'' @ [CHR 0x27],
      ''    ) LOOP'',
      ''        EXECUTE 'DROP SCHEMA IF EXISTS ' || quote_ident(schema_rec.schema_name) || ' CASCADE';'',
      ''    END LOOP;'',
      ''    '',
      ''    -- Drop all functions in public schema'',
      ''    FOR schema_rec IN ('',
      ''        SELECT proname, oidvectortypes(proargtypes) AS argtypes'',
      ''        FROM pg_proc'',
      ''        INNER JOIN pg_namespace ON pg_proc.pronamespace = pg_namespace.oid'',
      ''        WHERE nspname = 'public'' @ [CHR 0x27],
      ''    ) LOOP'',
      ''        EXECUTE 'DROP FUNCTION IF EXISTS public.' || quote_ident(schema_rec.proname) || '(' || schema_rec.argtypes || ') CASCADE';'',
      ''    END LOOP;'',
      ''    '',
      ''    -- Drop all tables, types and other objects in public schema'',
      ''    FOR schema_rec IN ('',
      ''        SELECT tablename '',
      ''        FROM pg_tables '',
      ''        WHERE schemaname = 'public'' @ [CHR 0x27],
      ''    ) LOOP'',
      ''        EXECUTE 'DROP TABLE IF EXISTS public.' || quote_ident(schema_rec.tablename) || ' CASCADE';'',
      ''    END LOOP;'',
      ''    '',
      ''    -- Drop all types in public schema'',
      ''    FOR schema_rec IN ('',
      ''        SELECT typname '',
      ''        FROM pg_type'',
      ''        INNER JOIN pg_namespace ON pg_type.typnamespace = pg_namespace.oid'',
      ''        WHERE nspname = 'public'' @ [CHR 0x27],
      ''        AND typtype = 'c'  -- Composite types'',
      ''    ) LOOP'',
      ''        EXECUTE 'DROP TYPE IF EXISTS public.' || quote_ident(schema_rec.typname) || ' CASCADE';'',
      ''    END LOOP;'',
      ''    '',
      ''    -- Drop all sequences in public schema'',
      ''    FOR schema_rec IN ('',
      ''        SELECT relname '',
      ''        FROM pg_class'',
      ''        INNER JOIN pg_namespace ON pg_class.relnamespace = pg_namespace.oid'',
      ''        WHERE nspname = 'public'' @ [CHR 0x27],
      ''        AND relkind = 'S'  -- Sequences'',
      ''    ) LOOP'',
      ''        EXECUTE 'DROP SEQUENCE IF EXISTS public.' || quote_ident(schema_rec.relname) || ' CASCADE';'',
      ''    END LOOP;'',
      ''    '',
      ''    -- Drop all views in public schema'',
      ''    FOR schema_rec IN ('',
      ''        SELECT viewname '',
      ''        FROM pg_views '',
      ''        WHERE schemaname = 'public'' @ [CHR 0x27],
      ''    ) LOOP'',
      ''        EXECUTE 'DROP VIEW IF EXISTS public.' || quote_ident(schema_rec.viewname) || ' CASCADE';'',
      ''    END LOOP;'',
      ''END $$;'']"

definition dropScript :: string where
  "dropScript = concat (map (\<lambda>l. l @ [CHR 0x0A]) dropScript_lines)"

definition dropExistingObjects_cmd :: "sys \<Rightarrow> SchemaHandler \<Rightarrow> string \<Rightarrow> Cmd" where
  "dropExistingObjects_cmd sy s tempFileName =
     (let args = [''-h'', Host (target s),
                  ''-p'', Sprintf ''%d'' [I (Port (target s))],
                  ''-U'', User (target s),
                  ''-d'', Database (target s),
                  ''-f'', tempFileName];
          cmd = Command ''psql'' args;
          cmd = cmd\<lparr>Env := os_Environ sy @ [Sprintf ''PGPASSWORD=%s'' [S (Password (target s))]]\<rparr>;
          cmd = (if SSLMode (target s) \<noteq> []
                 then cmd\<lparr>Env := Env cmd @ [Sprintf ''PGSSLMODE=%s'' [S (SSLMode (target s))]]\<rparr>
                 else cmd)
      in cmd)"

definition dropExistingObjects :: "sys \<Rightarrow> SchemaHandler \<Rightarrow> world \<Rightarrow> error option \<times> world" where
  "dropExistingObjects sy s w =
     (case os_CreateTemp sy of
        Inl err \<Rightarrow> (Some (Sprintf ''failed to create temp file for drop script: %v'' [S err]), w)
      | Inr tempFile \<Rightarrow>
          (let w = w\<lparr>files := (files w)(tempFile \<mapsto> File [])\<rparr>;
               (result, w) =
                 (case Write_file sy (WriteString tempFile) tempFile dropScript w of
                    Inl err \<Rightarrow>
                      (Some (Sprintf ''failed to write drop script to temp file: %v'' [S err]), w)
                  | Inr w \<Rightarrow>
                      (case Run sy Resetter (dropExistingObjects_cmd sy s tempFile) w of
                         (Some (err, stderr), w) \<Rightarrow>
                           (Some (Sprintf ''dropping objects failed: %v, stderr: %s''
                                    [S err, S stderr]), w)
                       | (None, w) \<Rightarrow> (None, w)))
           in (result, os_Remove tempFile w)))"

subsection \<open>\<open>restoreSchema\<close>\<close>

definition restoreSchema_cmd :: "sys \<Rightarrow> SchemaHandler \<Rightarrow> string \<Rightarrow> Cmd" where
  "restoreSchema_cmd sy s modifiedContent =
     (let args = [''-h'', Host (target s),
                  ''-p'', Sprintf ''%d'' [I (Port (target s))],
                  ''-U'', User (target s),
                  ''-d'', Database (target s),
                  ''-v'', ''ON_ERROR_STOP=1''];
          cmd = Command ''psql'' args;
          cmd = cmd\<lparr>Stdin := Some modifiedContent\<rparr>;
          cmd = cmd\<lparr>Env := os_Environ sy @ [Sprintf ''PGPASSWORD=%s'' [S (Password (target s))]]\<rparr>;
          cmd = (if SSLMode (target s) \<noteq> []
                 then cmd\<lparr>Env := Env cmd @ [Sprintf ''PGSSLMODE=%s'' [S (SSLMode (target s))]]\<rparr>
                 else cmd)
      in cmd)"

definition restoreSchema :: "sys \<Rightarrow> SchemaHandler \<Rightarrow> string \<Rightarrow> world \<Rightarrow> error option \<times> world" where
  "restoreSchema sy s dumpFilePath w =
     (case os_Open sy dumpFilePath w of
        Inl err \<Rightarrow> (Some (Sprintf ''failed to open dump file: %v'' [S err]), w)
      | Inr file \<Rightarrow>
          (let modifiedDumpPath = dumpFilePath @ ''.modified''
           in case os_Create sy modifiedDumpPath w of
                Inl err \<Rightarrow> (Some (Sprintf ''failed to create modified dump file: %v'' [S err]), w)
              | Inr w \<Rightarrow>
                  (let (result, w) =
                     (case processSchemaFile sy file modifiedDumpPath w of
                        (Some err, w) \<Rightarrow>
                          (Some (Sprintf ''failed to process schema file: %v'' [S err]), w)
                      | (None, w) \<Rightarrow>
                          (case os_Open sy modifiedDumpPath w of
                             Inl err \<Rightarrow>
                               (Some (Sprintf ''failed to open modified dump file: %v'' [S err]), w)
                           | Inr modifiedFile \<Rightarrow>
                               (case Run sy Restorer
                                       (restoreSchema_cmd sy s (contentOf w modifiedFile)) w of
                                  (Some (err, stderr), w) \<Rightarrow>
                                    (Some (Sprintf ''psql restore failed: %v, stderr: %s''
                                             [S err, S stderr]), w)
                                | (None, w) \<Rightarrow> (None, w))))
                   in (result, os_Remove modifiedDumpPath w))))"

definition RestoreSchemaFromFile ::
  "sys \<Rightarrow> SchemaHandler \<Rightarrow> string \<Rightarrow> world \<Rightarrow> error option \<times> world" where
  "RestoreSchemaFromFile sy s filePath w =
     (case dropExistingObjects sy s w of
        (Some err, w) \<Rightarrow> (Some (Sprintf ''failed to drop existing objects: %v'' [S err]), w)
      | (None, w) \<Rightarrow> restoreSchema sy s filePath w)"

subsection \<open>\<open>DumpAndRestoreSchema\<close>\<close>

text \<open>
  \<open>DumpAndRestoreSchema_steps\<close> is the body after the temporary directory exists;
  \<open>DumpAndRestoreSchema\<close> creates the directory and, by its deferred \<open>os.RemoveAll\<close>,
  removes it when the body returns.
\<close>

definition DumpAndRestoreSchema_steps ::
  "sys \<Rightarrow> SchemaHandler \<Rightarrow> string \<Rightarrow> world \<Rightarrow> error option \<times> world" where
  "DumpAndRestoreSchema_steps sy s tempDir w =
     (let timestamp = time_Now sy;
          dumpFilePath = Join tempDir (Sprintf ''schema-dump-%s.sql'' [S timestamp])
      in case dumpSchema sy s dumpFilePath w of
           (Some err, w) \<Rightarrow> (Some (Sprintf ''failed to dump schema: %v'' [S err]), w)
         | (None, w) \<Rightarrow>
             (case dropExistingObjects sy s w of
                (Some err, w) \<Rightarrow>
                  (Some (Sprintf ''failed to drop existing objects: %v'' [S err]), w)
              | (None, w) \<Rightarrow>
                  (case restoreSchema sy s dumpFilePath w of
                     (Some err, w) \<Rightarrow> (Some (Sprintf ''failed to restore schema: %v'' [S err]), w)
                   | (None, w) \<Rightarrow> (None, w))))"

definition DumpAndRestoreSchema :: "sys \<Rightarrow> SchemaHandler \<Rightarrow> world \<Rightarrow> error option \<times> world" where
  "DumpAndRestoreSchema sy s w =
     (case os_MkdirTemp sy of
        Inl err \<Rightarrow> (Some (Sprintf ''failed to create temp directory: %v'' [S err]), w)
      | Inr tempDir \<Rightarrow>
          (let w = w\<lparr>files := (files w)(tempDir \<mapsto> Dir)\<rparr>;
               (result, w) = DumpAndRestoreSchema_steps sy s tempDir w
           in (result, os_RemoveAll tempDir w)))"

text \<open>The steps of a run, in the order in which they happened.\<close>

fun stepOf :: "event \<Rightarrow> step" where
  "stepOf (Exec st cmd) = st"
| "stepOf (Rewrite input) = Rewriter"

definition stepsOf :: "world \<Rightarrow> world \<Rightarrow> step list" where
  "stepsOf w w' = map stepOf (drop (length (trace w)) (trace w'))"

text \<open>
  The events of a complete run of \<open>DumpAndRestoreSchema\<close>, in order: the dump to the file
  in the temporary directory, the reset with the script in its temporary file, the
  rewriting of the dump file, and the restore with the text \<open>c\<close> on standard input.
\<close>

definition dumpFilePathOf :: "sys \<Rightarrow> string" where
  "dumpFilePathOf sy =
     (case os_MkdirTemp sy of
        Inl err \<Rightarrow> []
      | Inr tempDir \<Rightarrow> Join tempDir (Sprintf ''schema-dump-%s.sql'' [S (time_Now sy)]))"

definition dropScriptFileOf :: "sys \<Rightarrow> string" where
  "dropScriptFileOf sy = (case os_CreateTemp sy of Inl err \<Rightarrow> [] | Inr tempFile \<Rightarrow> tempFile)"

definition completeRun :: "sys \<Rightarrow> SchemaHandler \<Rightarrow> string \<Rightarrow> event list" where
  "completeRun sy s c =
     [Exec Dumper (dumpSchema_cmd sy s (dumpFilePathOf sy)),
      Exec Resetter (dropExistingObjects_cmd sy s (dropScriptFileOf sy)),
      Rewrite (dumpFilePathOf sy),
      Exec Restorer (restoreSchema_cmd sy s c)]"

subsection \<open>What the reset script does on the server\<close>

text \<open>
  The script is one anonymous PL/pgSQL block (\<open>DO $$ ... END $$;\<close>) of six \<open>FOR\<close> loops.
  A \<open>database\<close> holds the catalog relations the loops read, with the columns they use:
  \<open>information_schema.schemata\<close> (\<open>schema_name\<close>), \<open>pg_namespace\<close> (\<open>oid\<close>, \<open>nspname\<close>),
  \<open>pg_proc\<close> (\<open>proname\<close>, \<open>proargtypes\<close>, \<open>pronamespace\<close>), \<open>pg_tables\<close> (\<open>schemaname\<close>,
  \<open>tablename\<close>), \<open>pg_type\<close> (\<open>typname\<close>, \<open>typnamespace\<close>, \<open>typtype\<close>), \<open>pg_class\<close>
  (\<open>relname\<close>, \<open>relnamespace\<close>, \<open>relkind\<close>) and \<open>pg_views\<close> (\<open>schemaname\<close>, \<open>viewname\<close>).
  The \<open>server\<close> provides the functions \<open>quote_ident\<close> and \<open>oidvectortypes\<close> and the
  effect of running a statement, \<open>EXECUTE\<close>, which is \<open>None\<close> when the statement raises
  an error; the block is then aborted.
\<close>

record database =
  schemata :: "string list"
  pg_namespace :: "(nat \<times> string) list"
  pg_proc :: "(string \<times> nat list \<times> nat) list"
  pg_tables :: "(string \<times> string) list"
  pg_type :: "(string \<times> nat \<times> char) list"
  pg_class :: "(string \<times> nat \<times> char) list"
  pg_views :: "(string \<times> string) list"

record server =
  quote_ident :: "string \<Rightarrow> string"
  oidvectortypes :: "nat list \<Rightarrow> string"
  EXECUTE :: "string \<Rightarrow> database \<Rightarrow> database option"



















section \<open>The rewriter in the words of the specification\<close>

subsection \<open>The rule table\<close>

text \<open>
  A rule is a source prefix with its rewritten prefix. \<open>ruleTable\<close> is the table of the
  specification, in its order. \<open>applyRules\<close> performs one unlimited \<open>Replace\<close> per rule
  over the whole document, one rule after the other.
\<close>

type_synonym rule = "string \<times> string"

definition ruleTable :: "rule list" where
  "ruleTable =
     [(''CREATE SCHEMA '', ''CREATE SCHEMA IF NOT EXISTS ''),
      (''CREATE FUNCTION '', ''CREATE OR REPLACE FUNCTION ''),
      (''CREATE TABLE '', ''CREATE TABLE IF NOT EXISTS ''),
      (''CREATE INDEX '', ''CREATE INDEX IF NOT EXISTS ''),
      (''CREATE SEQUENCE '', ''CREATE SEQUENCE IF NOT EXISTS ''),
      (''CREATE VIEW '', ''CREATE OR REPLACE VIEW '')]"

definition applyRule :: "string \<Rightarrow> rule \<Rightarrow> string" where
  "applyRule s r = Replace s (fst r) (snd r) (- 1)"

definition applyRules :: "rule list \<Rightarrow> string \<Rightarrow> string" where
  "applyRules rs s = foldl applyRule s rs"

text \<open>
  The specification's reading of the rewriter, following its words: a literal,
  non-contextual substitution applied uniformly to the whole document. \<open>onePass\<close> walks
  the original text once; wherever a source prefix of the table stands it emits the
  rewritten prefix in its place, and it copies every other byte unchanged. It looks at
  nothing but the bytes at the current position, so quotes and comments play no role.
\<close>

function onePass :: "rule list \<Rightarrow> string \<Rightarrow> string" where
  "onePass rs [] = []"
| "onePass rs (c # cs) =
     (case find (\<lambda>r. fst r \<noteq> [] \<and> prefix (fst r) (c # cs)) rs of
        None \<Rightarrow> c # onePass rs cs
      | Some r \<Rightarrow> snd r @ onePass rs (drop (length (fst r)) (c # cs)))"
  by pat_completeness auto
termination
  by (relation "measure (\<lambda>(rs, s). length s)") (auto simp: find_Some_iff)

subsection \<open>When texts cannot overlap\<close>

text \<open>
  \<open>apart w p\<close>: the text \<open>p\<close> cannot begin at any position inside \<open>w\<close>, whatever follows
  \<open>w\<close>: no non-empty suffix of \<open>w\<close> has \<open>p\<close> as a prefix or is a prefix of \<open>p\<close>.
\<close>

fun apart :: "string \<Rightarrow> string \<Rightarrow> bool" where
  "apart [] p = True"
| "apart (c # w) p = (\<not> prefix p (c # w) \<and> \<not> prefix (c # w) p \<and> apart w p)"

text \<open>
  \<open>compatible r r'\<close>: the source prefix of \<open>r'\<close> cannot begin inside the source prefix or
  inside the rewritten prefix of \<open>r\<close>, and the rewritten prefix of \<open>r\<close> cannot begin
  inside the source prefix of \<open>r'\<close> after its first byte. In an \<open>independent\<close> table
  every two different rules are compatible.
\<close>

definition compatible :: "rule \<Rightarrow> rule \<Rightarrow> bool" where
  "compatible r r' =
     (apart (fst r) (fst r') \<and> apart (snd r) (fst r') \<and> apart (tl (fst r')) (snd r))"

definition independent :: "rule list \<Rightarrow> bool" where
  "independent rs =
     (distinct rs \<and>
      (\<forall>r \<in> set rs. fst r \<noteq> [] \<and> fst r \<noteq> snd r \<and>
         (\<forall>r' \<in> set rs. r' \<noteq> r \<longrightarrow> compatible r r')))"

text \<open>
  \<open>cannotArise p rs\<close>: no rule of \<open>rs\<close> can create an occurrence of \<open>p\<close>: \<open>p\<close> cannot begin
  inside a rewritten prefix, and no rewritten prefix can begin inside \<open>p\<close> after its
  first byte.
\<close>

definition cannotArise :: "string \<Rightarrow> rule list \<Rightarrow> bool" where
  "cannotArise p rs =
     (p \<noteq> [] \<and>
      list_all (\<lambda>r. fst r \<noteq> [] \<and> fst r \<noteq> snd r \<and> apart (tl p) (snd r) \<and> apart (snd r) p) rs)"

text \<open>The four source prefixes whose rewritten prefix adds \<open>IF NOT EXISTS\<close>.\<close>

definition ifNotExistsPrefixes :: "string list" where
  "ifNotExistsPrefixes = [''CREATE SCHEMA '', ''CREATE TABLE '', ''CREATE INDEX '', ''CREATE SEQUENCE '']"


text \<open>The two rules whose rewritten prefix adds \<open>OR REPLACE\<close>.\<close>

definition orReplaceRules :: "rule list" where
  "orReplaceRules =
     [(''CREATE FUNCTION '', ''CREATE OR REPLACE FUNCTION ''),
      (''CREATE VIEW '', ''CREATE OR REPLACE VIEW '')]"

section \<open>Concrete runs\<close>

text \<open>
  A source and a target, and an operating system in which every file operation
  succeeds and \<open>pg_dump\<close> writes a one-table dump to the file named last on its command
  line. \<open>failingSys st\<close> is the same system, except that the command of step \<open>st\<close>
  exits with an error.
\<close>

definition demoConfig :: DBConfig where
  "demoConfig = \<lparr>Host = ''db.example.com'', Port = 5432, User = ''postgres'',
                  Password = ''s3cret'', Database = ''app'', SSLMode = ''require''\<rparr>"

definition demoHandler :: SchemaHandler where
  "demoHandler = \<lparr>source = demoConfig, target = demoConfig\<lparr>Host := ''target.example.com''\<rparr>\<rparr>"

definition demoWorld :: world where
  "demoWorld = \<lparr>files = Map.empty, trace = []\<rparr>"

definition demoRun :: "Cmd \<Rightarrow> fs \<Rightarrow> fs \<times> (error \<times> string) option" where
  "demoRun cmd fs =
     (if Path cmd = ''pg_dump''
      then (fs(last (Args cmd) \<mapsto> File ''CREATE TABLE t (id int);''), None)
      else (fs, None))"

definition noFailure :: "syscall \<Rightarrow> error option" where
  "noFailure call = None"

definition demoSys :: sys where
  "demoSys = \<lparr>os_Environ = [''PATH=/usr/bin''], time_Now = ''20240101-120000'',
              os_MkdirTemp = Inr ''/tmp/pg-migration-1'',
              os_CreateTemp = Inr ''/tmp/drop-objects-2.sql'',
              fails = noFailure, cmd_Run = demoRun\<rparr>"

definition stepOfCmd :: "Cmd \<Rightarrow> step" where
  "stepOfCmd cmd =
     (if Path cmd = ''pg_dump'' then Dumper
      else if Stdin cmd = None then Resetter else Restorer)"

definition failingRun :: "step \<Rightarrow> Cmd \<Rightarrow> fs \<Rightarrow> fs \<times> (error \<times> string) option" where
  "failingRun st cmd fs =
     (if stepOfCmd cmd = st
      then (fs, Some (''exit status 2'', ''could not translate host name''))
      else demoRun cmd fs)"

definition failingSys :: "step \<Rightarrow> sys" where
  "failingSys st = demoSys\<lparr>cmd_Run := failingRun st\<rparr>"






section \<open>Properties of \<open>strings.Replace\<close>\<close>

lemma replaceScan_absent:
  "\<not> sublist old s \<Longrightarrow> replaceScan old new n s = s"
  by (induction s) (auto simp: sublist_Cons_right)

lemma apart_head:
  "apart w p \<Longrightarrow> w \<noteq> [] \<Longrightarrow> \<not> prefix p w \<and> \<not> prefix w p"
  by (cases w) auto

lemma apart_append:
  assumes "apart w p" "w \<noteq> []"
  shows "\<not> prefix p (w @ x)"
proof
  assume "prefix p (w @ x)"
  then have "prefix p w \<or> prefix w p"
    by (auto simp: prefix_append)
  with apart_head[OF assms] show False by simp
qed

lemma replaceScan_hit:
  "n < 0 \<Longrightarrow> old \<noteq> [] \<Longrightarrow>
   replaceScan old new n (old @ rest) = new @ replaceScan old new n rest"
  by (cases old) simp_all

lemma replaceScan_block:
  "n < 0 \<Longrightarrow> old \<noteq> [] \<Longrightarrow> apart w old \<Longrightarrow>
   replaceScan old new n (w @ x) = w @ replaceScan old new n x"
proof (induction w)
  case Nil
  then show ?case by simp
next
  case (Cons c w)
  have "\<not> prefix old ((c # w) @ x)"
    using Cons.prems(3) by (intro apart_append) auto
  then show ?case using Cons by simp
qed

lemma replaceScan_prefix_back:
  "n < 0 \<Longrightarrow> old \<noteq> [] \<Longrightarrow> apart q new \<Longrightarrow>
   prefix q (replaceScan old new n s) \<Longrightarrow> prefix q s"
proof (induction old new n s arbitrary: q rule: replaceScan.induct)
  case (1 old new n)
  then show ?case by simp
next
  case (2 old new n c cs)
  show ?case
  proof (cases q)
    case Nil
    then show ?thesis by simp
  next
    case (Cons d q')
    show ?thesis
    proof (cases "prefix old (c # cs)")
      case True
      with "2.prems" have "prefix q (new @ replaceScan old new n (drop (length old) (c # cs)))"
        by simp
      then have "prefix q new \<or> prefix new q"
        by (auto simp: prefix_append)
      moreover have "\<not> prefix new q \<and> \<not> prefix q new"
        using apart_head[of q new] "2.prems"(3) Cons by simp
      ultimately show ?thesis by simp
    next
      case False
      with "2.prems" Cons have dc: "d = c" and pq: "prefix q' (replaceScan old new n cs)"
        by auto
      have "apart q' new" using "2.prems"(3) Cons by simp
      with pq have "prefix q' cs"
        using "2.IH"(2)[of q'] False "2.prems"(1,2) by simp
      with dc Cons show ?thesis by simp
    qed
  qed
qed

lemma apart_sublist:
  "apart w p \<Longrightarrow> p \<noteq> [] \<Longrightarrow> \<not> sublist p w"
  by (induction w) (auto simp: sublist_Cons_right)

lemma apart_suffix:
  "apart w p \<Longrightarrow> suffix v w \<Longrightarrow> v \<noteq> [] \<Longrightarrow> \<not> prefix v p"
  by (induction w) (auto simp: suffix_Cons)

lemma replaceScan_sublist_back:
  "n < 0 \<Longrightarrow> old \<noteq> [] \<Longrightarrow> p \<noteq> [] \<Longrightarrow> apart (tl p) new \<Longrightarrow> apart new p \<Longrightarrow>
   sublist p (replaceScan old new n s) \<Longrightarrow> sublist p s \<and> p \<noteq> old"
proof (induction old new n s rule: replaceScan.induct)
  case (1 old new n)
  then show ?case by simp
next
  case (2 old new n c cs)
  show ?case
  proof (cases "prefix old (c # cs)")
    case True
    let ?rest = "drop (length old) (c # cs)"
    let ?Y = "replaceScan old new n ?rest"
    from True "2.prems" have sub: "sublist p (new @ ?Y)" by simp
    have nonew: "\<not> sublist p new"
      using "2.prems" by (simp add: apart_sublist)
    have "sublist p ?Y"
    proof (rule ccontr)
      assume no: "\<not> sublist p ?Y"
      with sub nonew obtain p1 p2 where p: "p = p1 @ p2" "suffix p1 new" "prefix p2 ?Y"
        by (auto simp: sublist_append)
      have "p1 \<noteq> []" using p no by auto
      with "2.prems"(5) p(2) have "\<not> prefix p1 p" by (simp add: apart_suffix)
      with p(1) show False by simp
    qed
    then have "sublist p ?rest \<and> p \<noteq> old"
      using "2.IH"(1) True "2.prems" by simp
    moreover have "sublist ?rest (c # cs)" by (rule sublist_drop)
    ultimately show ?thesis
      using sublist_order.order_trans by blast
  next
    case False
    with "2.prems" have sub: "sublist p (c # replaceScan old new n cs)" by simp
    show ?thesis
    proof (cases "prefix p (c # replaceScan old new n cs)")
      case True
      obtain p' where p: "p = c # p'" "prefix p' (replaceScan old new n cs)"
        using True "2.prems"(3) by (cases p) auto
      then have "prefix p' cs"
        using replaceScan_prefix_back[of n old p' new cs] "2.prems" by simp
      with p have "prefix p (c # cs)" by simp
      with False show ?thesis by auto
    next
      case no: False
      with sub have "sublist p (replaceScan old new n cs)"
        by (simp add: sublist_Cons_right)
      then have "sublist p cs \<and> p \<noteq> old"
        using "2.IH"(2) False "2.prems" by simp
      then show ?thesis by (auto simp: sublist_Cons_right)
    qed
  qed
qed

section \<open>Sequential replacement and the single pass\<close>

lemma applyRule_scan:
  "fst r \<noteq> [] \<Longrightarrow> fst r \<noteq> snd r \<Longrightarrow> applyRule s r = replaceScan (fst r) (snd r) (- 1) s"
  by (simp add: applyRule_def Replace_def)

lemma applyRules_Nil: "applyRules [] s = s"
  by (simp add: applyRules_def)

lemma applyRules_Cons: "applyRules (r # rs) s = applyRules rs (applyRule s r)"
  by (simp add: applyRules_def)

lemma applyRules_append: "applyRules (rs @ rs') s = applyRules rs' (applyRules rs s)"
  by (simp add: applyRules_def)

lemma applyRules_block:
  "\<forall>r \<in> set rs. fst r \<noteq> [] \<and> fst r \<noteq> snd r \<and> apart w (fst r) \<Longrightarrow>
   applyRules rs (w @ x) = w @ applyRules rs x"
proof (induction rs arbitrary: x)
  case Nil
  then show ?case by (simp add: applyRules_Nil)
next
  case (Cons r rs)
  then have "applyRule (w @ x) r = w @ applyRule x r"
    by (simp add: applyRule_scan replaceScan_block)
  with Cons show ?case by (simp add: applyRules_Cons)
qed

lemma applyRules_prefix_back:
  "\<forall>r \<in> set rs. fst r \<noteq> [] \<and> fst r \<noteq> snd r \<and> apart q (snd r) \<Longrightarrow>
   prefix q (applyRules rs s) \<Longrightarrow> prefix q s"
proof (induction rs arbitrary: s)
  case Nil
  then show ?case by (simp add: applyRules_Nil)
next
  case (Cons r rs)
  then have "prefix q (applyRule s r)"
    by (simp add: applyRules_Cons)
  with Cons.prems(1) show ?case
    using replaceScan_prefix_back[of "- 1" "fst r" q "snd r" s]
    by (simp add: applyRule_scan)
qed

lemma applyRules_copy:
  assumes "independent (pre @ post)"
    and "\<forall>r \<in> set pre. \<not> prefix (fst r) (c # cs)"
  shows "applyRules pre (c # cs) = c # applyRules pre cs"
  using assms
proof (induction pre arbitrary: post rule: rev_induct)
  case Nil
  then show ?case by (simp add: applyRules_Nil)
next
  case (snoc r pre)
  have ind: "independent (pre @ (r # post))"
    using snoc.prems(1) by simp
  have step: "applyRules pre (c # cs) = c # applyRules pre cs"
    using snoc.IH[OF ind] snoc.prems(2) by simp
  have r: "fst r \<noteq> []" "fst r \<noteq> snd r"
    using snoc.prems(1) by (auto simp: independent_def)
  have "\<not> prefix (fst r) (c # applyRules pre cs)"
  proof
    assume pf: "prefix (fst r) (c # applyRules pre cs)"
    then obtain q where q: "fst r = c # q" "prefix q (applyRules pre cs)"
      using r(1) by (cases "fst r") auto
    have "\<forall>r' \<in> set pre. fst r' \<noteq> [] \<and> fst r' \<noteq> snd r' \<and> apart q (snd r')"
    proof
      fix r' assume r': "r' \<in> set pre"
      then have "r' \<noteq> r" using snoc.prems(1) by (auto simp: independent_def)
      with r' snoc.prems(1) have "compatible r' r" "fst r' \<noteq> []" "fst r' \<noteq> snd r'"
        by (auto simp: independent_def)
      then show "fst r' \<noteq> [] \<and> fst r' \<noteq> snd r' \<and> apart q (snd r')"
        using q(1) by (simp add: compatible_def)
    qed
    then have "prefix q cs"
      using q(2) by (rule applyRules_prefix_back)
    with q(1) have "prefix (fst r) (c # cs)" by simp
    with snoc.prems(2) show False by simp
  qed
  then have "applyRule (c # applyRules pre cs) r = c # applyRule (applyRules pre cs) r"
    using r by (simp add: applyRule_scan)
  with step show ?case by (simp add: applyRules_append applyRules_Cons applyRules_Nil)
qed

lemma applyRules_hit:
  assumes ind: "independent rs" and r: "r \<in> set rs"
  shows "applyRules rs (fst r @ rest) = snd r @ applyRules rs rest"
proof -
  from r obtain pre post where rs: "rs = pre @ r # post"
    by (auto dest: split_list)
  have r0: "fst r \<noteq> []" "fst r \<noteq> snd r"
    using ind r by (auto simp: independent_def)
  have pre: "\<forall>r' \<in> set pre. fst r' \<noteq> [] \<and> fst r' \<noteq> snd r' \<and> apart (fst r) (fst r')"
    using ind rs by (auto simp: independent_def compatible_def)
  have post: "\<forall>r' \<in> set post. fst r' \<noteq> [] \<and> fst r' \<noteq> snd r' \<and> apart (snd r) (fst r')"
    using ind rs by (auto simp: independent_def compatible_def)
  have "applyRules rs (fst r @ rest) = applyRules post (applyRule (applyRules pre (fst r @ rest)) r)"
    by (simp add: rs applyRules_append applyRules_Cons)
  also have "\<dots> = applyRules post (applyRule (fst r @ applyRules pre rest) r)"
    using applyRules_block[OF pre] by simp
  also have "\<dots> = applyRules post (snd r @ applyRule (applyRules pre rest) r)"
    using r0 by (simp add: applyRule_scan replaceScan_hit)
  also have "\<dots> = snd r @ applyRules post (applyRule (applyRules pre rest) r)"
    using applyRules_block[OF post] by simp
  also have "\<dots> = snd r @ applyRules rs rest"
    by (simp add: rs applyRules_append applyRules_Cons)
  finally show ?thesis .
qed

lemma independent_rule:
  "independent rs \<Longrightarrow> r \<in> set rs \<Longrightarrow> fst r \<noteq> [] \<and> fst r \<noteq> snd r"
  unfolding independent_def by blast

lemma applyRules_empty:
  "\<forall>r \<in> set rs. fst r \<noteq> [] \<and> fst r \<noteq> snd r \<Longrightarrow> applyRules rs [] = []"
  by (induction rs) (simp_all add: applyRules_Nil applyRules_Cons applyRule_scan)

lemma applyRules_onePass:
  "independent rs \<Longrightarrow> applyRules rs s = onePass rs s"
proof (induction rs s rule: onePass.induct)
  case (1 rs)
  then have "applyRules rs [] = []"
    using applyRules_empty[of rs] independent_rule[of rs] by blast
  then show ?case by simp
next
  case (2 rs c cs)
  note ind = "2.prems"
  let ?f = "find (\<lambda>r. fst r \<noteq> [] \<and> prefix (fst r) (c # cs)) rs"
  show ?case
  proof (cases ?f)
    case None
    have "\<forall>r \<in> set rs. \<not> prefix (fst r) (c # cs)"
    proof
      fix r assume "r \<in> set rs"
      with None have "\<not> (fst r \<noteq> [] \<and> prefix (fst r) (c # cs))"
        unfolding find_None_iff by blast
      moreover have "fst r \<noteq> []"
        using independent_rule[OF ind \<open>r \<in> set rs\<close>] by simp
      ultimately show "\<not> prefix (fst r) (c # cs)" by simp
    qed
    then have "applyRules rs (c # cs) = c # applyRules rs cs"
      using applyRules_copy[of rs "[]" c cs] ind by simp
    also have "applyRules rs cs = onePass rs cs"
      using "2.IH"(1)[OF None ind] .
    also have "c # onePass rs cs = onePass rs (c # cs)"
      using None by simp
    finally show ?thesis .
  next
    case (Some r)
    have r: "r \<in> set rs" "prefix (fst r) (c # cs)"
      using Some unfolding find_Some_iff by auto
    then obtain rest where rest: "c # cs = fst r @ rest"
      unfolding prefix_def by blast
    have d: "drop (length (fst r)) (c # cs) = rest"
      unfolding rest by simp
    have "applyRules rs (c # cs) = snd r @ applyRules rs rest"
      unfolding rest using applyRules_hit[OF ind r(1)] .
    also have "applyRules rs rest = onePass rs rest"
      using "2.IH"(2)[OF Some ind] unfolding d .
    also have "snd r @ onePass rs rest = onePass rs (c # cs)"
      using Some d by simp
    finally show ?thesis .
  qed
qed


section \<open>The rewriter\<close>

lemma processSchemaFile_sql_applyRules:
  "processSchemaFile_sql t = applyRules ruleTable t"
  by (simp add: processSchemaFile_sql_def applyRules_def applyRule_def ruleTable_def)

lemma independent_ruleTable: "independent ruleTable"
  unfolding independent_def compatible_def ruleTable_def by simp

lemma Replace_absent:
  "\<not> sublist old s \<Longrightarrow> Replace s old new n = s"
  by (cases "old = []") (simp_all add: Replace_def replaceScan_absent)

lemma applyRules_absent:
  "\<forall>r \<in> set rs. \<not> sublist (fst r) s \<Longrightarrow> applyRules rs s = s"
  by (induction rs) (simp_all add: applyRules_Nil applyRules_Cons applyRule_def Replace_absent)

lemma applyRules_sublist_back:
  "cannotArise p rs \<Longrightarrow> sublist p (applyRules rs s) \<Longrightarrow> sublist p s \<and> p \<notin> fst ` set rs"
proof (induction rs arbitrary: s)
  case Nil
  then show ?case by (simp add: applyRules_Nil)
next
  case (Cons r rs)
  from Cons.prems(1) have rest: "cannotArise p rs"
    and r: "p \<noteq> []" "fst r \<noteq> []" "fst r \<noteq> snd r" "apart (tl p) (snd r)" "apart (snd r) p"
    by (simp_all add: cannotArise_def)
  from Cons.prems(2) have "sublist p (applyRules rs (applyRule s r))"
    by (simp add: applyRules_Cons)
  with Cons.IH[OF rest] have a: "sublist p (applyRule s r)" and b: "p \<notin> fst ` set rs"
    by blast+
  from a have "sublist p (replaceScan (fst r) (snd r) (- 1) s)"
    using r by (simp add: applyRule_scan)
  then have "sublist p s \<and> p \<noteq> fst r"
    using replaceScan_sublist_back[of "- 1" "fst r" p "snd r" s] r by simp
  with b show ?case by simp
qed

lemma cannotArise_orReplaceRules:
  "\<forall>p \<in> set (map fst ruleTable). cannotArise p orReplaceRules"
  unfolding cannotArise_def ruleTable_def orReplaceRules_def by simp

lemma cannotArise_function:
  "\<forall>p \<in> set (map fst ruleTable).
     cannotArise p [(''CREATE FUNCTION '', ''CREATE OR REPLACE FUNCTION '')]"
  unfolding cannotArise_def ruleTable_def by simp

lemma cannotArise_view:
  "cannotArise ''CREATE VIEW '' [(''CREATE VIEW '', ''CREATE OR REPLACE VIEW '')]"
  unfolding cannotArise_def by simp

text \<open>
  A text without the four \<open>IF NOT EXISTS\<close> source prefixes is rewritten by the function
  and view rules alone: the function rule creates none of those prefixes.
\<close>

lemma rewrite_orReplaceRules:
  assumes "\<forall>p \<in> set ifNotExistsPrefixes. \<not> sublist p t"
  shows "processSchemaFile_sql t = applyRules orReplaceRules t"
proof -
  let ?F = "[(''CREATE FUNCTION '', ''CREATE OR REPLACE FUNCTION '')]"
  let ?t2 = "Replace t ''CREATE FUNCTION '' ''CREATE OR REPLACE FUNCTION '' (- 1)"
  have t2: "?t2 = applyRules ?F t"
    by (simp add: applyRules_def applyRule_def)
  have keep: "\<not> sublist p ?t2" if "p \<in> set ifNotExistsPrefixes" for p
  proof
    assume "sublist p ?t2"
    moreover have "cannotArise p ?F"
      using cannotArise_function that by (auto simp: ifNotExistsPrefixes_def ruleTable_def)
    ultimately have "sublist p t"
      unfolding t2 using applyRules_sublist_back by blast
    with assms that show False by simp
  qed
  have s1: "Replace t ''CREATE SCHEMA '' ''CREATE SCHEMA IF NOT EXISTS '' (- 1) = t"
    using assms by (intro Replace_absent) (simp add: ifNotExistsPrefixes_def)
  have s3: "Replace ?t2 ''CREATE TABLE '' ''CREATE TABLE IF NOT EXISTS '' (- 1) = ?t2"
    using keep by (intro Replace_absent) (simp add: ifNotExistsPrefixes_def)
  have s4: "Replace ?t2 ''CREATE INDEX '' ''CREATE INDEX IF NOT EXISTS '' (- 1) = ?t2"
    using keep by (intro Replace_absent) (simp add: ifNotExistsPrefixes_def)
  have s5: "Replace ?t2 ''CREATE SEQUENCE '' ''CREATE SEQUENCE IF NOT EXISTS '' (- 1) = ?t2"
    using keep by (intro Replace_absent) (simp add: ifNotExistsPrefixes_def)
  have "processSchemaFile_sql t = Replace ?t2 ''CREATE VIEW '' ''CREATE OR REPLACE VIEW '' (- 1)"
    unfolding processSchemaFile_sql_def Let_def s1 s3 s4 s5 ..
  also have "\<dots> = applyRules orReplaceRules t"
    by (simp add: applyRules_def applyRule_def orReplaceRules_def)
  finally show ?thesis .
qed

lemma rewrite_twice:
  assumes "\<forall>p \<in> set ifNotExistsPrefixes. \<not> sublist p t"
  shows "processSchemaFile_sql (processSchemaFile_sql t) = processSchemaFile_sql t"
proof -
  let ?u = "applyRules orReplaceRules t"
  have none: "\<not> sublist (fst r) ?u" if "r \<in> set ruleTable" for r
  proof
    assume "sublist (fst r) ?u"
    moreover have "cannotArise (fst r) orReplaceRules"
      using cannotArise_orReplaceRules that by simp
    ultimately have "sublist (fst r) t \<and> fst r \<notin> fst ` set orReplaceRules"
      by (rule_tac applyRules_sublist_back)
    moreover have "fst r \<in> set ifNotExistsPrefixes \<or> fst r \<in> fst ` set orReplaceRules"
      using that by (auto simp: ruleTable_def ifNotExistsPrefixes_def orReplaceRules_def)
    ultimately show False using assms by blast
  qed
  then have "applyRules ruleTable ?u = ?u"
    by (intro applyRules_absent) blast
  then have "processSchemaFile_sql ?u = ?u"
    by (simp add: processSchemaFile_sql_applyRules)
  then show ?thesis
    unfolding rewrite_orReplaceRules[OF assms] .
qed

lemma Replace_function_twice:
  "Replace (Replace t ''CREATE FUNCTION '' ''CREATE OR REPLACE FUNCTION '' (- 1))
      ''CREATE FUNCTION '' ''CREATE OR REPLACE FUNCTION '' (- 1) =
   Replace t ''CREATE FUNCTION '' ''CREATE OR REPLACE FUNCTION '' (- 1)"
proof -
  let ?F = "[(''CREATE FUNCTION '', ''CREATE OR REPLACE FUNCTION '')]"
  have "cannotArise ''CREATE FUNCTION '' ?F"
    using cannotArise_function by (simp add: ruleTable_def)
  then have "\<not> sublist ''CREATE FUNCTION '' (applyRules ?F t)"
    using applyRules_sublist_back[of "''CREATE FUNCTION ''" ?F t] by auto
  then show ?thesis
    by (intro Replace_absent) (simp add: applyRules_def applyRule_def)
qed

lemma Replace_view_twice:
  "Replace (Replace t ''CREATE VIEW '' ''CREATE OR REPLACE VIEW '' (- 1))
      ''CREATE VIEW '' ''CREATE OR REPLACE VIEW '' (- 1) =
   Replace t ''CREATE VIEW '' ''CREATE OR REPLACE VIEW '' (- 1)"
proof -
  let ?V = "[(''CREATE VIEW '', ''CREATE OR REPLACE VIEW '')]"
  have "\<not> sublist ''CREATE VIEW '' (applyRules ?V t)"
    using applyRules_sublist_back[of "''CREATE VIEW ''" ?V t] cannotArise_view by auto
  then show ?thesis
    by (intro Replace_absent) (simp add: applyRules_def applyRule_def)
qed

text \<open>
  Claim C1, as the specification states it: rewriting is idempotent for every object
  kind, \<open>rewrite (rewrite t) = rewrite t\<close> for every text \<open>t\<close>, and a text in rewritten
  form passes through unchanged. The code does not do this for schema, table, index and
  sequence: each of their rewritten prefixes begins with its own source prefix, so the
  literal replacement matches it again and a second rewrite inserts a second
  \<open>IF NOT EXISTS\<close>.
\<close>

theorem rewrite_not_idempotent:
  "processSchemaFile_sql ''CREATE TABLE t (id int);'' = ''CREATE TABLE IF NOT EXISTS t (id int);''
   \<and> processSchemaFile_sql ''CREATE TABLE IF NOT EXISTS t (id int);'' =
       ''CREATE TABLE IF NOT EXISTS IF NOT EXISTS t (id int);''
   \<and> processSchemaFile_sql (processSchemaFile_sql ''CREATE TABLE t (id int);'') \<noteq>
       processSchemaFile_sql ''CREATE TABLE t (id int);''"
  by (simp add: processSchemaFile_sql_def Replace_def)

text \<open>
  Claim C1, amended to what the code does: the empty text is rewritten to itself; a text
  that contains none of the six source prefixes passes through unchanged; for every text
  that contains none of the source prefixes of schema, table, index and sequence,
  rewriting the rewritten text changes nothing; and the function rule and the view rule,
  each taken alone, change nothing when applied a second time, for every text.
\<close>

theorem rewrite_idempotence_amended:
  "processSchemaFile_sql [] = []
   \<and> ((\<forall>p \<in> set (map fst ruleTable). \<not> sublist p t) \<longrightarrow> processSchemaFile_sql t = t)
   \<and> ((\<forall>p \<in> set ifNotExistsPrefixes. \<not> sublist p t) \<longrightarrow>
        processSchemaFile_sql (processSchemaFile_sql t) = processSchemaFile_sql t)
   \<and> Replace (Replace t ''CREATE FUNCTION '' ''CREATE OR REPLACE FUNCTION '' (- 1))
        ''CREATE FUNCTION '' ''CREATE OR REPLACE FUNCTION '' (- 1) =
      Replace t ''CREATE FUNCTION '' ''CREATE OR REPLACE FUNCTION '' (- 1)
   \<and> Replace (Replace t ''CREATE VIEW '' ''CREATE OR REPLACE VIEW '' (- 1))
        ''CREATE VIEW '' ''CREATE OR REPLACE VIEW '' (- 1) =
      Replace t ''CREATE VIEW '' ''CREATE OR REPLACE VIEW '' (- 1)"
proof -
  have "processSchemaFile_sql [] = []"
    by (simp add: processSchemaFile_sql_def Replace_def)
  moreover have "processSchemaFile_sql t = t" if "\<forall>p \<in> set (map fst ruleTable). \<not> sublist p t"
    using that applyRules_absent[of ruleTable t] by (simp add: processSchemaFile_sql_applyRules)
  ultimately show ?thesis
    using rewrite_twice Replace_function_twice Replace_view_twice by blast
qed

theorem rewrite_idempotence_amended_witness:
  "list_all (\<lambda>p. \<not> sublist p ''SELECT 1;'') (map fst ruleTable)
   \<and> processSchemaFile_sql ''SELECT 1;'' = ''SELECT 1;''
   \<and> list_all
        (\<lambda>p. \<not> sublist p ''CREATE VIEW v AS SELECT f(); CREATE FUNCTION f() RETURNS int'')
        ifNotExistsPrefixes
   \<and> processSchemaFile_sql
        (processSchemaFile_sql ''CREATE VIEW v AS SELECT f(); CREATE FUNCTION f() RETURNS int'')
      = processSchemaFile_sql ''CREATE VIEW v AS SELECT f(); CREATE FUNCTION f() RETURNS int''
   \<and> processSchemaFile_sql ''CREATE VIEW v AS SELECT f(); CREATE FUNCTION f() RETURNS int''
      = ''CREATE OR REPLACE VIEW v AS SELECT f(); CREATE OR REPLACE FUNCTION f() RETURNS int''"
proof -
  have h1: "\<forall>p \<in> set (map fst ruleTable). \<not> sublist p ''SELECT 1;''"
    by (simp add: ruleTable_def sublist_Cons_right)
  have h2: "\<forall>p \<in> set ifNotExistsPrefixes.
      \<not> sublist p ''CREATE VIEW v AS SELECT f(); CREATE FUNCTION f() RETURNS int''"
    by (simp add: ifNotExistsPrefixes_def sublist_Cons_right)
  have v: "processSchemaFile_sql ''CREATE VIEW v AS SELECT f(); CREATE FUNCTION f() RETURNS int''
      = ''CREATE OR REPLACE VIEW v AS SELECT f(); CREATE OR REPLACE FUNCTION f() RETURNS int''"
    by (simp add: processSchemaFile_sql_def Replace_def)
  have "processSchemaFile_sql ''SELECT 1;'' = ''SELECT 1;''"
    using h1 rewrite_idempotence_amended[of "''SELECT 1;''"] by blast
  moreover have "processSchemaFile_sql
        (processSchemaFile_sql ''CREATE VIEW v AS SELECT f(); CREATE FUNCTION f() RETURNS int'')
      = processSchemaFile_sql ''CREATE VIEW v AS SELECT f(); CREATE FUNCTION f() RETURNS int''"
    using h2 rewrite_idempotence_amended
        [of "''CREATE VIEW v AS SELECT f(); CREATE FUNCTION f() RETURNS int''"]
    by blast
  ultimately show ?thesis
    using h1 h2 v unfolding list_all_iff by blast
qed

text \<open>
  Claim C2: for every input text the rewriter performs exactly the six literal
  replacements of the rule table, each over the whole document, in the order of the
  table; every occurrence of a source prefix in the input becomes its rewritten prefix
  and all other text is left unchanged, which is the single pass \<open>onePass\<close> over the
  original text; an occurrence inside a comment or a string literal is replaced like any
  other.
\<close>

theorem rewrite_is_literal_replacement:
  "processSchemaFile_sql t = applyRules ruleTable t
   \<and> processSchemaFile_sql t = onePass ruleTable t
   \<and> processSchemaFile_sql ''-- CREATE TABLE old_name'' = ''-- CREATE TABLE IF NOT EXISTS old_name''
   \<and> processSchemaFile_sql ''INSERT INTO notes VALUES ('CREATE VIEW x');'' =
       ''INSERT INTO notes VALUES ('CREATE OR REPLACE VIEW x');''"
proof -
  have "processSchemaFile_sql t = onePass ruleTable t"
    using applyRules_onePass[OF independent_ruleTable]
    by (simp add: processSchemaFile_sql_applyRules)
  moreover have
    "processSchemaFile_sql ''-- CREATE TABLE old_name'' = ''-- CREATE TABLE IF NOT EXISTS old_name''"
    by (simp add: processSchemaFile_sql_def Replace_def)
  moreover have
    "processSchemaFile_sql ''INSERT INTO notes VALUES ('CREATE VIEW x');'' =
       ''INSERT INTO notes VALUES ('CREATE OR REPLACE VIEW x');''"
    by (simp add: processSchemaFile_sql_def Replace_def)
  ultimately show ?thesis
    by (simp add: processSchemaFile_sql_applyRules)
qed

text \<open>
  Claim C6: the line \<open>CREATE TABLE public.customers (id SERIAL PRIMARY KEY);\<close> is
  rewritten to \<open>CREATE TABLE IF NOT EXISTS public.customers (id SERIAL PRIMARY KEY);\<close>,
  the rest of the line after the prefix being what it was, and
  \<open>CREATE VIEW order_summary AS SELECT 1;\<close> is rewritten to
  \<open>CREATE OR REPLACE VIEW order_summary AS SELECT 1;\<close>.
\<close>

theorem rewrite_literal_scenarios:
  "processSchemaFile_sql ''CREATE TABLE public.customers (id SERIAL PRIMARY KEY);'' =
     ''CREATE TABLE IF NOT EXISTS public.customers (id SERIAL PRIMARY KEY);''
   \<and> processSchemaFile_sql ''CREATE TABLE public.customers (id SERIAL PRIMARY KEY);'' =
     ''CREATE TABLE IF NOT EXISTS '' @
       drop (length ''CREATE TABLE '') ''CREATE TABLE public.customers (id SERIAL PRIMARY KEY);''
   \<and> processSchemaFile_sql ''CREATE VIEW order_summary AS SELECT 1;'' =
     ''CREATE OR REPLACE VIEW order_summary AS SELECT 1;''"
  by (simp add: processSchemaFile_sql_def Replace_def)

text \<open>
  Claim C10: for every input text, the replacements written inline in
  \<open>RestoreSchemaFromReader\<close> produce the same text as those of \<open>processSchemaFile\<close>.
\<close>

theorem RestoreSchemaFromReader_rewrites_alike:
  "RestoreSchemaFromReader_sql t = processSchemaFile_sql t"
  by (simp add: RestoreSchemaFromReader_sql_def processSchemaFile_sql_def)


section \<open>Connection strings\<close>

text \<open>
  Claim C7: for every connection descriptor, \<open>ConnectionString\<close> is exactly
  \<open>host=<host> port=<port> user=<user> password=<password> dbname=<database>
  sslmode=<sslmode>\<close> with the port in decimal, where the SSL mode is the descriptor's and
  \<open>require\<close> when that is the empty string; and \<open>PgDumpConnectionString\<close> is exactly
  \<open>postgresql://<user>:<password>@<host>:<port>/<database>\<close>.
\<close>

theorem connection_string_formats:
  "ConnectionString c =
     ''host='' @ Host c @ '' port='' @ Itoa (Port c) @ '' user='' @ User c @
     '' password='' @ Password c @ '' dbname='' @ Database c @
     '' sslmode='' @ (if SSLMode c = [] then ''require'' else SSLMode c)
   \<and> PgDumpConnectionString c =
     ''postgresql://'' @ User c @ '':'' @ Password c @ ''@'' @ Host c @ '':'' @
     Itoa (Port c) @ ''/'' @ Database c"
  by (simp add: ConnectionString_def PgDumpConnectionString_def extraArgs_def)


section \<open>Commands, steps and files of a run\<close>

lemma Sprintf_formats:
  "Sprintf ''%d'' [I n] = Itoa n"
  "Sprintf ''PGPASSWORD=%s'' [S x] = ''PGPASSWORD='' @ x"
  "Sprintf ''PGSSLMODE=%s'' [S x] = ''PGSSLMODE='' @ x"
  "Sprintf ''schema-dump-%s.sql'' [S x] = ''schema-dump-'' @ x @ ''.sql''"
  "Sprintf ''pg_dump failed: %v, stderr: %s'' [S a, S b] = ''pg_dump failed: '' @ a @ '', stderr: '' @ b"
  "Sprintf ''dropping objects failed: %v, stderr: %s'' [S a, S b] =
     ''dropping objects failed: '' @ a @ '', stderr: '' @ b"
  "Sprintf ''psql restore failed: %v, stderr: %s'' [S a, S b] =
     ''psql restore failed: '' @ a @ '', stderr: '' @ b"
  "Sprintf ''failed to create temp directory: %v'' [S x] = ''failed to create temp directory: '' @ x"
  "Sprintf ''failed to dump schema: %v'' [S x] = ''failed to dump schema: '' @ x"
  "Sprintf ''failed to drop existing objects: %v'' [S x] = ''failed to drop existing objects: '' @ x"
  "Sprintf ''failed to restore schema: %v'' [S x] = ''failed to restore schema: '' @ x"
  "Sprintf ''failed to create temp file for drop script: %v'' [S x] =
     ''failed to create temp file for drop script: '' @ x"
  "Sprintf ''failed to write drop script to temp file: %v'' [S x] =
     ''failed to write drop script to temp file: '' @ x"
  "Sprintf ''failed to open dump file: %v'' [S x] = ''failed to open dump file: '' @ x"
  "Sprintf ''failed to create modified dump file: %v'' [S x] =
     ''failed to create modified dump file: '' @ x"
  "Sprintf ''failed to process schema file: %v'' [S x] = ''failed to process schema file: '' @ x"
  "Sprintf ''failed to open modified dump file: %v'' [S x] =
     ''failed to open modified dump file: '' @ x"
  "Sprintf ''failed to read input file: %v'' [S x] = ''failed to read input file: '' @ x"
  "Sprintf ''failed to write to output file: %v'' [S x] = ''failed to write to output file: '' @ x"
  by (simp_all add: extraArgs_def)

lemma extraArgs_Nil: "extraArgs [] = []"
  by (simp add: extraArgs_def)

lemma dumpSchema_cmd_eq:
  "dumpSchema_cmd sy s p =
     \<lparr>Path = ''pg_dump'',
      Args = [''pg_dump'', ''-h'', Host (source s), ''-p'', Itoa (Port (source s)),
              ''-U'', User (source s), ''-d'', Database (source s),
              ''--schema-only'', ''--no-owner'', ''--no-privileges'', ''-f'', p],
      Env = os_Environ sy @ [''PGPASSWORD='' @ Password (source s)] @
            (if SSLMode (source s) = [] then [] else [''PGSSLMODE='' @ SSLMode (source s)]),
      Stdin = None\<rparr>"
  by (simp add: dumpSchema_cmd_def Command_def Sprintf_formats del: Sprintf.simps)

lemma dropExistingObjects_cmd_eq:
  "dropExistingObjects_cmd sy s t =
     \<lparr>Path = ''psql'',
      Args = [''psql'', ''-h'', Host (target s), ''-p'', Itoa (Port (target s)),
              ''-U'', User (target s), ''-d'', Database (target s), ''-f'', t],
      Env = os_Environ sy @ [''PGPASSWORD='' @ Password (target s)] @
            (if SSLMode (target s) = [] then [] else [''PGSSLMODE='' @ SSLMode (target s)]),
      Stdin = None\<rparr>"
  by (simp add: dropExistingObjects_cmd_def Command_def Sprintf_formats del: Sprintf.simps)

lemma restoreSchema_cmd_eq:
  "restoreSchema_cmd sy s c =
     \<lparr>Path = ''psql'',
      Args = [''psql'', ''-h'', Host (target s), ''-p'', Itoa (Port (target s)),
              ''-U'', User (target s), ''-d'', Database (target s), ''-v'', ''ON_ERROR_STOP=1''],
      Env = os_Environ sy @ [''PGPASSWORD='' @ Password (target s)] @
            (if SSLMode (target s) = [] then [] else [''PGSSLMODE='' @ SSLMode (target s)]),
      Stdin = Some c\<rparr>"
  by (simp add: restoreSchema_cmd_def Command_def Sprintf_formats del: Sprintf.simps)

lemma dumpSchema_eq:
  "dumpSchema sy s p w =
     (case cmd_Run sy (dumpSchema_cmd sy s p) (files w) of
        (fs', r) \<Rightarrow>
          (map_option (\<lambda>(err, stderr). ''pg_dump failed: '' @ err @ '', stderr: '' @ stderr) r,
           w\<lparr>files := fs', trace := trace w @ [Exec Dumper (dumpSchema_cmd sy s p)]\<rparr>))"
  by (simp add: dumpSchema_def Run_def Sprintf_formats del: Sprintf.simps split: prod.splits option.splits)

lemma dumpSchema_trace:
  "trace (snd (dumpSchema sy s p w)) = trace w @ [Exec Dumper (dumpSchema_cmd sy s p)]"
  by (simp add: dumpSchema_eq split: prod.splits)

lemma dropExistingObjects_trace:
  "\<exists>evs. trace (snd (dropExistingObjects sy s w)) = trace w @ evs
     \<and> prefix evs [Exec Resetter (dropExistingObjects_cmd sy s (dropScriptFileOf sy))]
     \<and> (fst (dropExistingObjects sy s w) = None \<longrightarrow> evs \<noteq> [])"
  by (auto simp: dropExistingObjects_def Run_def Write_file_def os_Remove_def Let_def
      dropScriptFileOf_def
      simp del: Sprintf.simps split: sum.splits prod.splits option.splits)


lemma restoreSchema_trace:
  "\<exists>evs c. trace (snd (restoreSchema sy s p w)) = trace w @ evs
     \<and> prefix evs [Rewrite p, Exec Restorer (restoreSchema_cmd sy s c)]
     \<and> (fst (restoreSchema sy s p w) = None \<longrightarrow> length evs = 2)"
  by (auto simp: restoreSchema_def processSchemaFile_def Run_def Write_file_def os_Remove_def
      os_Open_def os_Create_def io_ReadAll_def Let_def
      simp del: Sprintf.simps split: sum.splits prod.splits option.splits node.splits)


lemma stepsOf_append:
  "trace w' = trace w @ evs \<Longrightarrow> stepsOf w w' = map stepOf evs"
  by (simp add: stepsOf_def)

lemma prefix_same_length:
  "prefix xs ys \<Longrightarrow> length xs = length ys \<Longrightarrow> xs = ys"
  by (auto simp: prefix_def)

lemma DumpAndRestoreSchema_steps_trace:
  assumes "os_MkdirTemp sy = Inr d"
  shows "\<exists>evs c. trace (snd (DumpAndRestoreSchema_steps sy s d w)) = trace w @ evs
     \<and> prefix evs (completeRun sy s c)
     \<and> (fst (DumpAndRestoreSchema_steps sy s d w) = None \<longrightarrow> length evs = 4)"
proof -
  let ?p = "dumpFilePathOf sy"
  let ?D = "Exec Dumper (dumpSchema_cmd sy s ?p)"
  let ?R = "Exec Resetter (dropExistingObjects_cmd sy s (dropScriptFileOf sy))"
  have p: "Join d (Sprintf ''schema-dump-%s.sql'' [S (time_Now sy)]) = ?p"
    using assms by (simp add: dumpFilePathOf_def del: Sprintf.simps)
  obtain r1 w1 where d1: "dumpSchema sy s ?p w = (r1, w1)" by (cases "dumpSchema sy s ?p w")
  have t1: "trace w1 = trace w @ [?D]"
    using dumpSchema_trace[of sy s ?p w] d1 by simp
  show ?thesis
  proof (cases r1)
    case (Some e)
    then have "DumpAndRestoreSchema_steps sy s d w =
        (Some (Sprintf ''failed to dump schema: %v'' [S e]), w1)"
      using d1 by (simp add: DumpAndRestoreSchema_steps_def p Let_def del: Sprintf.simps)
    with t1 show ?thesis
      by (intro exI[of _ "[?D]"]) (simp add: completeRun_def)
  next
    case None
    obtain r2 w2 where d2: "dropExistingObjects sy s w1 = (r2, w2)"
      by (cases "dropExistingObjects sy s w1")
    obtain evs2 where t2: "trace w2 = trace w1 @ evs2" "prefix evs2 [?R]"
        "r2 = None \<longrightarrow> evs2 \<noteq> []"
      using dropExistingObjects_trace[of sy s w1] d2 by auto
    show ?thesis
    proof (cases r2)
      case (Some e)
      then have "DumpAndRestoreSchema_steps sy s d w =
          (Some (Sprintf ''failed to drop existing objects: %v'' [S e]), w2)"
        using d1 d2 None by (simp add: DumpAndRestoreSchema_steps_def p Let_def del: Sprintf.simps)
      moreover have "trace w2 = trace w @ (?D # evs2)" using t1 t2 by simp
      moreover have "prefix (?D # evs2) (completeRun sy s c)" for c
      proof -
        have "prefix evs2 (tl (completeRun sy s c))"
          using t2(2) by (rule prefix_order.trans) (simp add: completeRun_def)
        then show ?thesis by (simp add: completeRun_def)
      qed
      ultimately show ?thesis by (intro exI[of _ "?D # evs2"]) simp
    next
      case None2: None
      then have e2: "evs2 = [?R]" using t2 by (auto simp: prefix_def Cons_eq_append_conv)
      obtain r3 w3 where d3: "restoreSchema sy s ?p w2 = (r3, w3)"
        by (cases "restoreSchema sy s ?p w2")
      obtain evs3 c where t3: "trace w3 = trace w2 @ evs3"
          "prefix evs3 [Rewrite ?p, Exec Restorer (restoreSchema_cmd sy s c)]"
          "r3 = None \<longrightarrow> length evs3 = 2"
        using restoreSchema_trace[of sy s ?p w2] d3 by auto
      have res: "fst (DumpAndRestoreSchema_steps sy s d w) = None \<longleftrightarrow> r3 = None"
        "snd (DumpAndRestoreSchema_steps sy s d w) = w3"
        using d1 d2 d3 None None2
        by (auto simp: DumpAndRestoreSchema_steps_def p Let_def simp del: Sprintf.simps
            split: option.splits)
      have "trace w3 = trace w @ (?D # ?R # evs3)" using t1 t2(1) e2 t3(1) by simp
      moreover have "prefix (?D # ?R # evs3) (completeRun sy s c)"
        using t3(2) by (simp add: completeRun_def)
      moreover have "r3 = None \<longrightarrow> length (?D # ?R # evs3) = 4" using t3(3) by simp
      ultimately show ?thesis
        using res by (intro exI[of _ "?D # ?R # evs3"] exI[of _ c]) simp
    qed
  qed
qed

lemma DumpAndRestoreSchema_trace:
  "\<exists>evs c. trace (snd (DumpAndRestoreSchema sy s w)) = trace w @ evs
     \<and> prefix evs (completeRun sy s c)
     \<and> (fst (DumpAndRestoreSchema sy s w) = None \<longrightarrow> length evs = 4)"
proof (cases "os_MkdirTemp sy")
  case (Inl e)
  then show ?thesis
    by (simp add: DumpAndRestoreSchema_def del: Sprintf.simps)
next
  case (Inr d)
  let ?w0 = "w\<lparr>files := (files w)(d \<mapsto> Dir)\<rparr>"
  obtain r w1 where st: "DumpAndRestoreSchema_steps sy s d ?w0 = (r, w1)"
    by (cases "DumpAndRestoreSchema_steps sy s d ?w0")
  have "DumpAndRestoreSchema sy s w = (r, os_RemoveAll d w1)"
    using Inr st by (simp add: DumpAndRestoreSchema_def)
  then have "fst (DumpAndRestoreSchema sy s w) = r"
    "trace (snd (DumpAndRestoreSchema sy s w)) = trace w1"
    by (simp_all add: os_RemoveAll_def)
  then show ?thesis
    using DumpAndRestoreSchema_steps_trace[OF Inr, of s ?w0] st by simp
qed

lemma map_stepOf_completeRun:
  "map stepOf (completeRun sy s c) = [Dumper, Resetter, Rewriter, Restorer]"
  by (simp add: completeRun_def)

lemmas run_defs =
  DumpAndRestoreSchema_def DumpAndRestoreSchema_steps_def dumpSchema_def dropExistingObjects_def
  restoreSchema_def processSchemaFile_def Run_def Write_file_def os_Remove_def os_RemoveAll_def
  os_Open_def os_Create_def io_ReadAll_def contentOf_def Join_def Let_def
  dumpSchema_cmd_eq dropExistingObjects_cmd_eq restoreSchema_cmd_eq Sprintf_formats

lemmas demo_defs =
  demoSys_def demoHandler_def demoConfig_def demoWorld_def demoRun_def noFailure_def
  failingSys_def failingRun_def stepOfCmd_def

lemma demo_result:
  "fst (DumpAndRestoreSchema demoSys demoHandler demoWorld) = None"
  by (simp add: run_defs demo_defs del: Sprintf.simps)

lemma demo_trace:
  "map stepOf (trace (snd (DumpAndRestoreSchema demoSys demoHandler demoWorld))) =
     [Dumper, Resetter, Rewriter, Restorer]"
  by (simp add: run_defs demo_defs del: Sprintf.simps)

lemma demo_fail_dump:
  "fst (DumpAndRestoreSchema (failingSys Dumper) demoHandler demoWorld) =
     Some ''failed to dump schema: pg_dump failed: exit status 2, stderr: could not translate host name''"
  by (simp add: run_defs demo_defs del: Sprintf.simps)

lemma demo_fail_reset:
  "fst (DumpAndRestoreSchema (failingSys Resetter) demoHandler demoWorld) =
     Some ''failed to drop existing objects: dropping objects failed: exit status 2, stderr: could not translate host name''"
  by (simp add: run_defs demo_defs del: Sprintf.simps)

lemma demo_fail_restore:
  "fst (DumpAndRestoreSchema (failingSys Restorer) demoHandler demoWorld) =
     Some ''failed to restore schema: psql restore failed: exit status 2, stderr: could not translate host name''"
  by (simp add: run_defs demo_defs del: Sprintf.simps)







text \<open>
  Claim C3, as the specification states it: the steps of the dump-and-restore
  orchestration run in the order Dumper, Idempotency Rewriter, Destructive Resetter,
  Restorer, so that the dump is rewritten before the reset of the target is issued. In the
  code the rewriting is part of \<open>restoreSchema\<close>, which is called after
  \<open>dropExistingObjects\<close>: in a run where every step succeeds the reset command has run
  before \<open>processSchemaFile\<close> is called.
\<close>

theorem rewrite_runs_after_reset:
  "fst (DumpAndRestoreSchema demoSys demoHandler demoWorld) = None
   \<and> map stepOf (trace (snd (DumpAndRestoreSchema demoSys demoHandler demoWorld))) =
       [Dumper, Resetter, Rewriter, Restorer]
   \<and> map stepOf (trace (snd (DumpAndRestoreSchema demoSys demoHandler demoWorld))) \<noteq>
       [Dumper, Rewriter, Resetter, Restorer]"
  by (simp add: run_defs demo_defs del: Sprintf.simps)

text \<open>
  Claim C3, amended to what the code does: the steps of \<open>DumpAndRestoreSchema\<close> run one
  after the other in the order Dumper, Destructive Resetter, Idempotency Rewriter,
  Restorer. Every run performs an initial part of this sequence, each step at most once,
  and a run that returns no error performs all four: the reset is issued before the dump
  is rewritten, and the restore runs last.
\<close>

theorem steps_in_order:
  "prefix (stepsOf w (snd (DumpAndRestoreSchema sy s w))) [Dumper, Resetter, Rewriter, Restorer]
   \<and> (fst (DumpAndRestoreSchema sy s w) = None \<longrightarrow>
        stepsOf w (snd (DumpAndRestoreSchema sy s w)) = [Dumper, Resetter, Rewriter, Restorer])"
proof -
  from DumpAndRestoreSchema_trace[of sy s w]
  obtain evs c where t: "trace (snd (DumpAndRestoreSchema sy s w)) = trace w @ evs"
    and p: "prefix evs (completeRun sy s c)"
    and l: "fst (DumpAndRestoreSchema sy s w) = None \<longrightarrow> length evs = 4"
    by (elim exE conjE)
  have s: "stepsOf w (snd (DumpAndRestoreSchema sy s w)) = map stepOf evs"
    using t by (rule stepsOf_append)
  from map_mono_prefix[OF p, of stepOf]
  have a: "prefix (map stepOf evs) [Dumper, Resetter, Rewriter, Restorer]"
    by (simp add: map_stepOf_completeRun)
  have "map stepOf evs = [Dumper, Resetter, Rewriter, Restorer]" if "length evs = 4"
    using a that by (intro prefix_same_length) simp_all
  with a l s show ?thesis by simp
qed

theorem steps_in_order_witness:
  "fst (DumpAndRestoreSchema demoSys demoHandler demoWorld) = None
   \<and> stepsOf demoWorld (snd (DumpAndRestoreSchema demoSys demoHandler demoWorld)) =
       [Dumper, Resetter, Rewriter, Restorer]
   \<and> prefix (stepsOf demoWorld (snd (DumpAndRestoreSchema (failingSys Resetter) demoHandler demoWorld)))
       [Dumper, Resetter, Rewriter, Restorer]"
  using demo_result steps_in_order[of demoWorld demoSys demoHandler]
    steps_in_order[of demoWorld "failingSys Resetter" demoHandler]
  by simp



text \<open>
  Claim C8: for every source and target configuration, the argument vectors of the three
  commands (\<open>pg_dump\<close>, \<open>psql\<close> for the reset, \<open>psql\<close> for the restore) are built from
  host, port, user, database, fixed options and a file name only: they are the same
  whatever the password is, and they hold no argument equal to the password unless the
  password is spelled like one of those values. The password reaches the child process
  in the \<open>PGPASSWORD\<close> entry of its environment. The dump command always has the options
  \<open>--schema-only\<close>, \<open>--no-owner\<close> and \<open>--no-privileges\<close>. Every command that a run of
  \<open>DumpAndRestoreSchema\<close> executes is one of these three.
\<close>

theorem password_only_in_environment:
  "Args (dumpSchema_cmd sy (s\<lparr>source := (source s)\<lparr>Password := pw\<rparr>\<rparr>) p) = Args (dumpSchema_cmd sy s p)
   \<and> Args (dropExistingObjects_cmd sy (s\<lparr>target := (target s)\<lparr>Password := pw\<rparr>\<rparr>) t) =
       Args (dropExistingObjects_cmd sy s t)
   \<and> Args (restoreSchema_cmd sy (s\<lparr>target := (target s)\<lparr>Password := pw\<rparr>\<rparr>) c) =
       Args (restoreSchema_cmd sy s c)
   \<and> Args (dumpSchema_cmd sy s p) =
       [''pg_dump'', ''-h'', Host (source s), ''-p'', Itoa (Port (source s)),
        ''-U'', User (source s), ''-d'', Database (source s),
        ''--schema-only'', ''--no-owner'', ''--no-privileges'', ''-f'', p]
   \<and> Args (dropExistingObjects_cmd sy s t) =
       [''psql'', ''-h'', Host (target s), ''-p'', Itoa (Port (target s)),
        ''-U'', User (target s), ''-d'', Database (target s), ''-f'', t]
   \<and> Args (restoreSchema_cmd sy s c) =
       [''psql'', ''-h'', Host (target s), ''-p'', Itoa (Port (target s)),
        ''-U'', User (target s), ''-d'', Database (target s), ''-v'', ''ON_ERROR_STOP=1'']
   \<and> Env (dumpSchema_cmd sy s p) =
       os_Environ sy @ [''PGPASSWORD='' @ Password (source s)] @
       (if SSLMode (source s) = [] then [] else [''PGSSLMODE='' @ SSLMode (source s)])
   \<and> Env (dropExistingObjects_cmd sy s t) =
       os_Environ sy @ [''PGPASSWORD='' @ Password (target s)] @
       (if SSLMode (target s) = [] then [] else [''PGSSLMODE='' @ SSLMode (target s)])
   \<and> Env (restoreSchema_cmd sy s c) =
       os_Environ sy @ [''PGPASSWORD='' @ Password (target s)] @
       (if SSLMode (target s) = [] then [] else [''PGSSLMODE='' @ SSLMode (target s)])
   \<and> (Password (source s) \<notin> set [Host (source s), Itoa (Port (source s)), User (source s),
                                   Database (source s), p]
        \<and> Password (source s) \<notin> set [''pg_dump'', ''-h'', ''-p'', ''-U'', ''-d'', ''-f'',
                                       ''--schema-only'', ''--no-owner'', ''--no-privileges'']
        \<longrightarrow> Password (source s) \<notin> set (Args (dumpSchema_cmd sy s p)))
   \<and> (Password (target s) \<notin> set [Host (target s), Itoa (Port (target s)), User (target s),
                                   Database (target s), t]
        \<and> Password (target s) \<notin> set [''psql'', ''-h'', ''-p'', ''-U'', ''-d'', ''-f'',
                                       ''-v'', ''ON_ERROR_STOP=1'']
        \<longrightarrow> Password (target s) \<notin> set (Args (dropExistingObjects_cmd sy s t))
            \<and> Password (target s) \<notin> set (Args (restoreSchema_cmd sy s c)))
   \<and> (\<exists>c. \<forall>ev. ev \<in> set (drop (length (trace w)) (trace (snd (DumpAndRestoreSchema sy s w))))
          \<longrightarrow> ev \<in> set (completeRun sy s c))"
proof -
  from DumpAndRestoreSchema_trace[of sy s w]
  obtain evs c where t: "trace (snd (DumpAndRestoreSchema sy s w)) = trace w @ evs"
    and p: "prefix evs (completeRun sy s c)"
    by (elim exE conjE)
  have "\<forall>ev. ev \<in> set (drop (length (trace w)) (trace (snd (DumpAndRestoreSchema sy s w))))
          \<longrightarrow> ev \<in> set (completeRun sy s c)"
    using t set_mono_prefix[OF p] by auto
  then have "\<exists>c. \<forall>ev. ev \<in> set (drop (length (trace w)) (trace (snd (DumpAndRestoreSchema sy s w))))
          \<longrightarrow> ev \<in> set (completeRun sy s c)" ..
  then show ?thesis
    by (simp add: dumpSchema_cmd_eq dropExistingObjects_cmd_eq restoreSchema_cmd_eq)
qed

theorem password_only_in_environment_witness:
  "Password (source demoHandler) = ''s3cret''
   \<and> Args (dumpSchema_cmd demoSys demoHandler (dumpFilePathOf demoSys)) =
       [''pg_dump'', ''-h'', ''db.example.com'', ''-p'', ''5432'', ''-U'', ''postgres'', ''-d'', ''app'',
        ''--schema-only'', ''--no-owner'', ''--no-privileges'', ''-f'',
        ''/tmp/pg-migration-1/schema-dump-20240101-120000.sql'']
   \<and> ''s3cret'' \<notin> set (Args (dumpSchema_cmd demoSys demoHandler (dumpFilePathOf demoSys)))
   \<and> ''s3cret'' \<notin> set (Args (dropExistingObjects_cmd demoSys demoHandler (dropScriptFileOf demoSys)))
   \<and> ''s3cret'' \<notin> set (Args (restoreSchema_cmd demoSys demoHandler ''SELECT 1;''))
   \<and> Env (dumpSchema_cmd demoSys demoHandler (dumpFilePathOf demoSys)) =
       [''PATH=/usr/bin'', ''PGPASSWORD=s3cret'', ''PGSSLMODE=require'']
   \<and> list_all (\<lambda>ev. ev \<in> set (completeRun demoSys demoHandler ''CREATE TABLE IF NOT EXISTS t (id int);''))
        (trace (snd (DumpAndRestoreSchema demoSys demoHandler demoWorld)))"
proof -
  note T = password_only_in_environment[where sy = demoSys and s = demoHandler
      and p = "dumpFilePathOf demoSys" and t = "dropScriptFileOf demoSys" and c = "''SELECT 1;''"
      and w = demoWorld]
  have v: "Itoa 5432 = ''5432''"
    by (simp add: Itoa_def natDec.simps digitChar_def)
  have p: "dumpFilePathOf demoSys = ''/tmp/pg-migration-1/schema-dump-20240101-120000.sql''"
    "dropScriptFileOf demoSys = ''/tmp/drop-objects-2.sql''"
    by (simp_all add: dumpFilePathOf_def dropScriptFileOf_def demoSys_def Join_def Sprintf_formats
        del: Sprintf.simps)
  have h: "Password (source demoHandler) = ''s3cret''" "Password (target demoHandler) = ''s3cret''"
    "Host (source demoHandler) = ''db.example.com''" "Host (target demoHandler) = ''target.example.com''"
    "Port (source demoHandler) = 5432" "Port (target demoHandler) = 5432"
    "User (source demoHandler) = ''postgres''" "User (target demoHandler) = ''postgres''"
    "Database (source demoHandler) = ''app''" "Database (target demoHandler) = ''app''"
    "SSLMode (source demoHandler) = ''require''" "os_Environ demoSys = [''PATH=/usr/bin'']"
    by (simp_all add: demo_defs)
  have "list_all (\<lambda>ev. ev \<in> set (completeRun demoSys demoHandler ''CREATE TABLE IF NOT EXISTS t (id int);''))
        (trace (snd (DumpAndRestoreSchema demoSys demoHandler demoWorld)))"
    by (simp add: run_defs demo_defs completeRun_def dumpFilePathOf_def dropScriptFileOf_def
        processSchemaFile_sql_def Replace_def del: Sprintf.simps)
  with T show ?thesis
    by (simp add: h v p)
qed




section \<open>The reset script\<close>
















end
